theory Spec2Isabelle
  imports Main
begin

section \<open>The supervisor of networkMonitor.cpp\<close>

text \<open>
  The supervisor is a single-threaded C++ program built on system calls. Every system
  call is an input of the model (the value the kernel returns) and an entry of a trace
  (the call the program makes), so that "closed", "written" and "logged" are facts about
  the trace. A run that does not go on is a result of its own, \<open>Inl\<close>, never a value:
  behaviour the C++ standard leaves undefined (a store past the end of \<open>clientFds\<close>, an
  \<open>fd_set\<close> macro on a descriptor outside its range, printing a buffer with no
  terminator), and the death of the process by \<open>SIGPIPE\<close> inside \<open>write\<close>.
\<close>

subsection \<open>Constants\<close>

definition BUFFER_SIZE :: nat where
  "BUFFER_SIZE = 256"

definition MAX_CONNECTIONS :: nat where
  "MAX_CONNECTIONS = 2"

text \<open>
  The next three constants come from the system headers, not from the repository:
  \<open>FD_SETSIZE\<close> of \<open>sys/select.h\<close> and the Linux numbers of the two signals.
\<close>

definition FD_SETSIZE :: int where
  "FD_SETSIZE = 1024"

definition SIGINT :: int where
  "SIGINT = 2"

definition SIGUSR1 :: int where
  "SIGUSR1 = 10"

definition NUL :: char where
  "NUL = CHR 0x00"

subsection \<open>Trace, faults and state\<close>

datatype log_msg =
    AcceptFailed
  | HandshakeReadFailed
  | HandshakeWriteFailed
  | UnexpectedMessage "char list"
  | DataReceived nat "char list"
  | ConnectionClosed nat
  | ForkFailed "char list"
  | ExecFailed "char list"
  | KillFailed int
  | ChildExited int
  | UnlinkFailed
  | UnlinkOk
  | SelectFailedMsg
  | ShuttingDown
  | UndefinedSignal

datatype event =
    SysAccept int
  | SysRead int nat
  | SysWrite int "char list"
  | SysClose int
  | SysKill int int
  | SysWait
  | SysUnlink
  | Log log_msg

datatype fault =
    ArrayOutOfBounds nat
  | FdSetOutOfRange int
  | BufferOverread
  | KilledBySigpipe

text \<open>
  The locals of \<open>main\<close> that the functions share by reference, the two globals, and
  the trace. \<open>clientFds\<close> is the array \<open>int clientFds[MAX_CONNECTIONS]\<close>: a list whose
  length is the size of the array. \<open>activeClients\<close> starts at 0 and is only ever
  incremented, so it is a natural number.
\<close>

record monitor_state =
  g_isRunning :: bool
  g_childProcesses :: "int list"
  masterSet :: "int set"
  maxFd :: int
  clientFds :: "int list"
  activeClients :: nat
  trace :: "event list"

type_synonym 'a result = "(fault \<times> event list) + 'a"

definition emit :: "event \<Rightarrow> monitor_state \<Rightarrow> monitor_state" where
  "emit e s = s\<lparr>trace := trace s @ [e]\<rparr>"

definition undefined_behaviour :: "fault \<Rightarrow> monitor_state \<Rightarrow> 'a result" where
  "undefined_behaviour f s = Inl (f, trace s)"

definition fd_in_range :: "int \<Rightarrow> bool" where
  "fd_in_range fd = (0 \<le> fd \<and> fd < FD_SETSIZE)"

text \<open>The events a run added to the trace.\<close>

definition new_events :: "monitor_state \<Rightarrow> monitor_state \<Rightarrow> event list" where
  "new_events s s' = drop (length (trace s)) (trace s')"

subsection \<open>C strings\<close>

text \<open>
  \<open>strcmp\<close>, \<open>strlen\<close> and \<open>operator<<\<close> on a \<open>char*\<close> read up to the first NUL.
  \<open>c_string\<close> is that prefix; it is the content of the buffer only when the buffer
  holds a NUL (\<open>terminated\<close>).
\<close>

definition c_string :: "char list \<Rightarrow> char list" where
  "c_string buf = takeWhile (\<lambda>c. c \<noteq> NUL) buf"

definition terminated :: "char list \<Rightarrow> bool" where
  "terminated buf = (NUL \<in> set buf)"

subsection \<open>The results of read\<close>

text \<open>
  \<open>read(fd, buffer, count)\<close> returns -1 (\<open>ReadError\<close>) or stores the first \<open>count\<close> of
  the bytes the peer has sent and returns how many it stored (\<open>ReadData\<close>; no byte
  means the peer closed).
\<close>

datatype read_result = ReadError | ReadData "char list"

subsection \<open>The results of write\<close>

text \<open>
  \<open>write\<close> on a socket returns a value (-1 for an error), or, when the peer has already
  closed its end, raises \<open>SIGPIPE\<close>. The supervisor handles \<open>SIGINT\<close> only and neither
  ignores nor blocks \<open>SIGPIPE\<close>, so the signal kills it inside the call and \<open>write\<close>
  never returns (\<open>WriteSigpipe\<close>).
\<close>

datatype write_result = WriteReturns int | WriteSigpipe

subsection \<open>handleNewConnection\<close>

text \<open>What the kernel answers to the calls of one connection attempt.\<close>

record conn_env =
  accept_ret :: int
  read_ret :: read_result
  write_ret :: write_result

text \<open>
  In \<open>handleNewConnection\<close> the buffer is not initialised; after
  \<open>buffer[bytesRead] = 0\<close> it holds the bytes read, a NUL, and bytes that no string
  function reaches. The model keeps the bytes up to that NUL.
\<close>

definition handleNewConnection ::
  "conn_env \<Rightarrow> int \<Rightarrow> monitor_state \<Rightarrow> monitor_state result" where
  "handleNewConnection env serverFd s0 =
    (let s1 = emit (SysAccept serverFd) s0;
         fd = accept_ret env;
         slot = activeClients s1
     in if \<not> slot < length (clientFds s1) then undefined_behaviour (ArrayOutOfBounds slot) s1
        else
          let s2 = s1\<lparr>clientFds := (clientFds s1)[slot := fd]\<rparr>
          in if fd < 0 then Inr (emit (Log AcceptFailed) s2)
             else if \<not> fd_in_range fd then undefined_behaviour (FdSetOutOfRange fd) s2
             else
               let s3 = emit (SysRead fd (BUFFER_SIZE - 1))
                          (s2\<lparr>masterSet := insert fd (masterSet s2)\<rparr>)
               in case read_ret env of
                    ReadError \<Rightarrow> Inr (emit (SysClose fd) (emit (Log HandshakeReadFailed) s3))
                  | ReadData bs \<Rightarrow>
                      let buffer = take (BUFFER_SIZE - 1) bs @ [NUL]
                      in if c_string buffer = ''ready_to_monitor'' then
                           let s4 = emit (SysWrite fd (''start_monitoring'' @ [NUL])) s3
                           in case write_ret env of
                                WriteSigpipe \<Rightarrow> Inl (KilledBySigpipe, trace s4)
                              | WriteReturns r \<Rightarrow>
                                  if r = - 1 then
                                    Inr (emit (SysClose fd) (emit (Log HandshakeWriteFailed) s4))
                                  else
                                    Inr (s4\<lparr>maxFd := max (maxFd s4) fd,
                                             activeClients := activeClients s4 + 1\<rparr>)
                         else
                           Inr (emit (SysClose fd)
                                  (emit (Log (UnexpectedMessage (c_string buffer))) s3)))"

subsection \<open>processMonitorData\<close>

text \<open>
  The body of the loop for a slot whose descriptor is set in \<open>readSet\<close>: the buffer is
  zeroed, \<open>read\<close> stores at most \<open>BUFFER_SIZE\<close> bytes at its start, and the two
  branches test \<open>bytesRead > 0\<close> and \<open>bytesRead == 0\<close>. Nothing is done for a negative
  \<open>bytesRead\<close>.
\<close>

definition serviceSlot ::
  "nat \<Rightarrow> int \<Rightarrow> read_result \<Rightarrow> monitor_state \<Rightarrow> monitor_state result" where
  "serviceSlot i fd r s =
    (let s1 = emit (SysRead fd BUFFER_SIZE) s
     in case r of
          ReadError \<Rightarrow> Inr s1
        | ReadData bs \<Rightarrow>
            let received = take BUFFER_SIZE bs;
                buffer = received @ replicate (BUFFER_SIZE - length received) NUL
            in if 0 < length received then
                 (if terminated buffer then Inr (emit (Log (DataReceived i (c_string buffer))) s1)
                  else undefined_behaviour BufferOverread s1)
               else
                 Inr ((emit (SysClose fd) (emit (Log (ConnectionClosed i)) s1))
                        \<lparr>clientFds := (clientFds s1)[i := - 1]\<rparr>))"

text \<open>
  The \<open>for\<close> loop, from index \<open>i\<close>. \<open>n\<close> is the parameter \<open>activeClients\<close>, passed by
  value; \<open>reads\<close> gives what \<open>read\<close> returns on each descriptor.
\<close>

function processMonitorData_from ::
  "nat \<Rightarrow> nat \<Rightarrow> int set \<Rightarrow> (int \<Rightarrow> read_result) \<Rightarrow> monitor_state \<Rightarrow> monitor_state result"
where
  "processMonitorData_from i n readSet reads s =
    (if i < n then
       (if \<not> i < length (clientFds s) then undefined_behaviour (ArrayOutOfBounds i) s
        else
          let fd = clientFds s ! i
          in if \<not> fd_in_range fd then undefined_behaviour (FdSetOutOfRange fd) s
             else if fd \<in> readSet then
               (case serviceSlot i fd (reads fd) s of
                  Inl f \<Rightarrow> Inl f
                | Inr s' \<Rightarrow> processMonitorData_from (Suc i) n readSet reads s')
             else processMonitorData_from (Suc i) n readSet reads s)
     else Inr s)"
  by pat_completeness auto
termination
  by (relation "measure (\<lambda>(i, n, readSet, reads, s). n - i)") auto

declare processMonitorData_from.simps [simp del]

definition processMonitorData ::
  "int set \<Rightarrow> (int \<Rightarrow> read_result) \<Rightarrow> monitor_state \<Rightarrow> monitor_state result" where
  "processMonitorData readSet reads s =
     processMonitorData_from 0 (activeClients s) readSet reads s"

subsection \<open>handleSignal\<close>

definition handleSignal :: "int \<Rightarrow> monitor_state \<Rightarrow> monitor_state" where
  "handleSignal signal s =
    (if signal = SIGINT then (emit (Log ShuttingDown) s)\<lparr>g_isRunning := False\<rparr>
     else emit (Log UndefinedSignal) s)"

subsection \<open>The loop of main\<close>

text \<open>
  What happens during one iteration: the signals delivered while the program is in
  \<open>select\<close>, what \<open>select\<close> returns, and what the kernel answers to the calls that
  follow. \<open>select\<close> fails with \<open>EINTR\<close>, fails otherwise, or leaves in \<open>readSet\<close> (a copy
  of \<open>masterSet\<close>) the descriptors below \<open>maxFd + 1\<close> that are ready.
\<close>

datatype select_result = SelectEINTR | SelectError | SelectReady "int set"

record iter_env =
  signals :: "int list"
  select_ret :: select_result
  conn :: conn_env
  reads :: "int \<Rightarrow> read_result"

datatype loop_ctl = Continue | Break

definition selectReadSet :: "int set \<Rightarrow> monitor_state \<Rightarrow> int set" where
  "selectReadSet ready s = Set.filter (\<lambda>fd. fd \<le> maxFd s \<and> fd \<in> ready) (masterSet s)"

definition main_iteration ::
  "int \<Rightarrow> iter_env \<Rightarrow> monitor_state \<Rightarrow> (loop_ctl \<times> monitor_state) result" where
  "main_iteration serverFd env s0 =
    (let s = foldl (\<lambda>st sig. handleSignal sig st) s0 (signals env)
     in case select_ret env of
          SelectEINTR \<Rightarrow> Inr (Continue, s)
        | SelectError \<Rightarrow> Inr (Break, emit (Log SelectFailedMsg) s)
        | SelectReady ready \<Rightarrow>
            let readSet = selectReadSet ready s
            in if \<not> fd_in_range serverFd then undefined_behaviour (FdSetOutOfRange serverFd) s
               else if serverFd \<in> readSet then
                 map_sum id (Pair Continue) (handleNewConnection (conn env) serverFd s)
               else
                 map_sum id (Pair Continue) (processMonitorData readSet (reads env) s))"

text \<open>
  The \<open>while (g_isRunning)\<close> loop over the iterations the environment provides. The
  result says whether the loop has been left (\<open>True\<close>) or is at its head waiting for
  more (\<open>False\<close>).
\<close>

fun main_loop :: "int \<Rightarrow> iter_env list \<Rightarrow> monitor_state \<Rightarrow> (bool \<times> monitor_state) result" where
  "main_loop serverFd [] s = Inr (\<not> g_isRunning s, s)"
| "main_loop serverFd (env # envs) s =
    (if \<not> g_isRunning s then Inr (True, s)
     else case main_iteration serverFd env s of
            Inl f \<Rightarrow> Inl f
          | Inr (Break, s') \<Rightarrow> Inr (True, s')
          | Inr (Continue, s') \<Rightarrow> main_loop serverFd envs s')"

text \<open>The state of \<open>main\<close> when it reaches the loop; the array is not initialised.\<close>

definition initial_state :: "int \<Rightarrow> int list \<Rightarrow> monitor_state" where
  "initial_state serverFd uninitialised =
    \<lparr>g_isRunning = True, g_childProcesses = [], masterSet = {serverFd}, maxFd = serverFd,
     clientFds = take MAX_CONNECTIONS (uninitialised @ replicate MAX_CONNECTIONS 0),
     activeClients = 0, trace = []\<rparr>"

subsection \<open>spawnInterfaceMonitor and startMonitoring\<close>

text \<open>
  \<open>fork\<close> returns in two processes. \<open>fork_ret\<close> is the value it returns in the process
  the model follows (0 in the child, the child's pid in the parent, negative when no
  child was created); \<open>execlp_fails\<close> says whether \<open>./intfMonitor\<close> cannot be executed,
  which only the child finds out. A process that is the child never returns from
  \<open>spawnInterfaceMonitor\<close>: it becomes the worker or exits.
\<close>

record spawn_env =
  fork_ret :: int
  execlp_fails :: bool

datatype spawn_outcome =
    Returned int "event list"
  | BecameWorker "char list"
  | ChildExit int "event list"

definition spawnInterfaceMonitor :: "char list \<Rightarrow> spawn_env \<Rightarrow> spawn_outcome" where
  "spawnInterfaceMonitor interface env =
    (let pid = fork_ret env
     in if pid = 0 then
          (if execlp_fails env then ChildExit (- 1) [Log (ExecFailed interface)]
           else BecameWorker interface)
        else if pid < 0 then Returned (- 1) [Log (ForkFailed interface)]
        else Returned pid [])"

fun startMonitoring ::
  "(char list \<times> spawn_env) list \<Rightarrow> monitor_state \<Rightarrow> spawn_outcome + monitor_state" where
  "startMonitoring [] s = Inr s"
| "startMonitoring ((interface, env) # rest) s =
    (case spawnInterfaceMonitor interface env of
       Returned pid logs \<Rightarrow>
         (let s1 = s\<lparr>trace := trace s @ logs\<rparr>
          in if 0 < pid then
               startMonitoring rest (s1\<lparr>g_childProcesses := g_childProcesses s1 @ [pid]\<rparr>)
             else startMonitoring rest s1)
     | child \<Rightarrow> Inl child)"

subsection \<open>cleanup\<close>

text \<open>
  \<open>kills\<close> gives what \<open>kill\<close> returns for each pid, \<open>waits\<close> lists what the successive
  calls of \<open>wait\<close> return, \<open>unlink_ret\<close> is what \<open>unlink\<close> returns. A call of \<open>wait\<close>
  with no answer left never returns: the result is \<open>None\<close>.
\<close>

record cleanup_env =
  kills :: "int \<Rightarrow> int"
  waits :: "int list"
  unlink_ret :: int

fun signalChildren :: "(int \<Rightarrow> int) \<Rightarrow> int list \<Rightarrow> monitor_state \<Rightarrow> monitor_state" where
  "signalChildren k [] s = s"
| "signalChildren k (pid # pids) s =
    (let s1 = emit (SysKill pid SIGUSR1) s
     in signalChildren k pids (if k pid = - 1 then emit (Log (KillFailed pid)) s1 else s1))"

fun waitChildren :: "int list \<Rightarrow> monitor_state \<Rightarrow> monitor_state option" where
  "waitChildren [] s = None"
| "waitChildren (childPid # rest) s =
    (let s1 = emit SysWait s
     in if 0 < childPid then waitChildren rest (emit (Log (ChildExited childPid)) s1)
        else Some s1)"

function closeClients_from :: "nat \<Rightarrow> nat \<Rightarrow> monitor_state \<Rightarrow> monitor_state result" where
  "closeClients_from i n s =
    (if i < n then
       (if \<not> i < length (clientFds s) then undefined_behaviour (ArrayOutOfBounds i) s
        else
          let fd = clientFds s ! i
          in if \<not> fd_in_range fd then undefined_behaviour (FdSetOutOfRange fd) s
             else closeClients_from (Suc i) n
                    (emit (SysClose fd) (s\<lparr>masterSet := masterSet s - {fd}\<rparr>)))
     else Inr s)"
  by pat_completeness auto
termination
  by (relation "measure (\<lambda>(i, n, s). n - i)") auto

declare closeClients_from.simps [simp del]

definition cleanup :: "cleanup_env \<Rightarrow> int \<Rightarrow> monitor_state \<Rightarrow> monitor_state result option" where
  "cleanup env serverFd s =
    (case waitChildren (waits env) (signalChildren (kills env) (g_childProcesses s) s) of
       None \<Rightarrow> None
     | Some s1 \<Rightarrow>
         Some (case closeClients_from 0 (activeClients s1) s1 of
                 Inl f \<Rightarrow> Inl f
               | Inr s2 \<Rightarrow>
                   let s3 = emit SysUnlink (emit (SysClose serverFd) s2)
                   in Inr (emit (Log (if unlink_ret env = - 1 then UnlinkFailed else UnlinkOk)) s3)))"

subsection \<open>The capacity of the registry\<close>

text \<open>The slots in use fit in the array.\<close>

definition within_capacity :: "monitor_state \<Rightarrow> bool" where
  "within_capacity s = (activeClients s \<le> length (clientFds s))"

subsection \<open>Reading a trace\<close>

fun reads_of :: "event list \<Rightarrow> int list" where
  "reads_of [] = []"
| "reads_of (SysRead fd n # es) = fd # reads_of es"
| "reads_of (e # es) = reads_of es"

fun writes_of :: "event list \<Rightarrow> (int \<times> char list) list" where
  "writes_of [] = []"
| "writes_of (SysWrite fd bs # es) = (fd, bs) # writes_of es"
| "writes_of (e # es) = writes_of es"

fun closes_of :: "event list \<Rightarrow> int list" where
  "closes_of [] = []"
| "closes_of (SysClose fd # es) = fd # closes_of es"
| "closes_of (e # es) = closes_of es"

fun logs_of :: "event list \<Rightarrow> log_msg list" where
  "logs_of [] = []"
| "logs_of (Log m # es) = m # logs_of es"
| "logs_of (e # es) = logs_of es"

text \<open>
  The message the handshake compares with the token: the C string at the start of the
  bytes read (at most \<open>BUFFER_SIZE - 1\<close> of them), or nothing when \<open>read\<close> failed.
\<close>

definition first_message :: "conn_env \<Rightarrow> char list option" where
  "first_message env =
    (case read_ret env of
       ReadError \<Rightarrow> None
     | ReadData bs \<Rightarrow> Some (c_string (take (BUFFER_SIZE - 1) bs)))"

subsection \<open>Scenarios\<close>

text \<open>
  A run of the supervisor on descriptor 3: workers connect and are given descriptors 4,
  5 and 6; each sends the readiness token, and every write succeeds.
\<close>

definition worker_connects :: "int \<Rightarrow> conn_env" where
  "worker_connects fd =
    \<lparr>accept_ret = fd, read_ret = ReadData ''ready_to_monitor'',
     write_ret = WriteReturns 17\<rparr>"

definition no_connection :: conn_env where
  "no_connection =
    \<lparr>accept_ret = - 1, read_ret = ReadError, write_ret = WriteReturns (- 1)\<rparr>"

definition connection_ready :: "conn_env \<Rightarrow> iter_env" where
  "connection_ready c =
    \<lparr>signals = [], select_ret = SelectReady {3}, conn = c, reads = (\<lambda>fd. ReadError)\<rparr>"

definition data_ready :: "int set \<Rightarrow> (int \<Rightarrow> read_result) \<Rightarrow> iter_env" where
  "data_ready ready rd =
    \<lparr>signals = [], select_ret = SelectReady ready, conn = no_connection, reads = rd\<rparr>"

text \<open>The state after the worker on descriptor 4 has been admitted to slot 0.\<close>

definition one_worker :: monitor_state where
  "one_worker =
    \<lparr>g_isRunning = True, g_childProcesses = [], masterSet = {3, 4}, maxFd = 4,
     clientFds = [4, 0], activeClients = 1,
     trace = [SysAccept 3, SysRead 4 255, SysWrite 4 (''start_monitoring'' @ [NUL])]\<rparr>"

text \<open>The state after a second worker, on descriptor 5, has been admitted to slot 1.\<close>

definition two_workers :: monitor_state where
  "two_workers =
    \<lparr>g_isRunning = True, g_childProcesses = [], masterSet = {3, 4, 5}, maxFd = 5,
     clientFds = [4, 5], activeClients = 2,
     trace = [SysAccept 3, SysRead 4 255, SysWrite 4 (''start_monitoring'' @ [NUL]),
              SysAccept 3, SysRead 5 255, SysWrite 5 (''start_monitoring'' @ [NUL])]\<rparr>"

text \<open>
  An iteration in which the listening descriptor and the worker on descriptor 4 are
  ready together: a third peer is being accepted on descriptor 5 while a report of the
  first worker is waiting.
\<close>

definition both_ready :: iter_env where
  "both_ready =
    \<lparr>signals = [], select_ret = SelectReady {3, 4}, conn = worker_connects 5,
     reads = (\<lambda>fd. ReadData ''report'')\<rparr>"

text \<open>
  A shutdown with one worker, pid 100, spawned and never reaped. \<open>SIGINT\<close> arrives
  while the supervisor is in \<open>select\<close>, and the loop is left (\<open>one_child\<close>). In
  \<open>cleanup\<close> the first \<open>wait\<close> returns -1 because a second \<open>SIGINT\<close> interrupts it
  (\<open>EINTR\<close>; the handler is installed with \<open>sa_flags = 0\<close>, so the call is not
  restarted).
\<close>

definition sigint_arrives :: iter_env where
  "sigint_arrives =
    \<lparr>signals = [SIGINT], select_ret = SelectEINTR, conn = no_connection,
     reads = (\<lambda>fd. ReadError)\<rparr>"

definition one_child :: monitor_state where
  "one_child =
    (initial_state 3 [0, 0])
      \<lparr>g_childProcesses := [100], g_isRunning := False, trace := [Log ShuttingDown]\<rparr>"

definition interrupted_wait :: cleanup_env where
  "interrupted_wait = \<lparr>kills = (\<lambda>pid. 0), waits = [- 1], unlink_ret = 0\<rparr>"

section \<open>Properties\<close>

lemmas run_defs =
  handleNewConnection_def main_iteration_def selectReadSet_def emit_def
  undefined_behaviour_def fd_in_range_def FD_SETSIZE_def BUFFER_SIZE_def MAX_CONNECTIONS_def
  c_string_def NUL_def initial_state_def worker_connects_def connection_ready_def
  data_ready_def no_connection_def one_worker_def two_workers_def both_ready_def
  Let_def processMonitorData_def
  serviceSlot_def terminated_def new_events_def first_message_def
  processMonitorData_from.simps closeClients_from.simps

subsection \<open>Helper facts\<close>

lemma takeWhile_snoc_NUL:
  "takeWhile (\<lambda>c. c \<noteq> NUL) (xs @ [NUL]) = takeWhile (\<lambda>c. c \<noteq> NUL) xs"
  by (induction xs) auto

lemma c_string_snoc_NUL: "c_string (xs @ [NUL]) = c_string xs"
  by (simp add: c_string_def takeWhile_snoc_NUL)

text \<open>The scenario state is the one the loop reaches after the first worker is admitted.\<close>

lemma one_worker_reached:
  "main_loop 3 [connection_ready (worker_connects 4)] (initial_state 3 [0, 0]) =
     Inr (False, one_worker)"
  by (simp add: run_defs insert_commute)

text \<open>
  In the parent \<open>fork\<close> does not return 0, and what \<open>spawnInterfaceMonitor\<close> returns there
  is decided by \<open>fork\<close> alone.
\<close>

lemma spawn_in_parent:
  "fork_ret e \<noteq> 0 \<Longrightarrow>
     spawnInterfaceMonitor i e =
       (if fork_ret e < 0 then Returned (- 1) [Log (ForkFailed i)] else Returned (fork_ret e) [])"
  by (simp add: spawnInterfaceMonitor_def Let_def)

text \<open>
  The descriptors \<open>processMonitorData\<close> reads are those of the slots whose descriptor is
  in \<open>readSet\<close>, slot after slot. Servicing slot \<open>i\<close> changes no other slot.
\<close>

lemma reads_of_append: "reads_of (xs @ ys) = reads_of xs @ reads_of ys"
  by (induction xs rule: reads_of.induct) simp_all

lemma serviceSlot_reads:
  assumes "serviceSlot i fd r s = Inr s1"
  shows "length (clientFds s1) = length (clientFds s) \<and>
         (\<forall>j. j \<noteq> i \<longrightarrow> clientFds s1 ! j = clientFds s ! j) \<and>
         (\<exists>evs. trace s1 = trace s @ evs \<and> reads_of evs = [fd])"
  using assms
  by (auto simp: serviceSlot_def emit_def undefined_behaviour_def Let_def
           split: read_result.splits if_splits)

lemma slots_agree:
  "\<forall>j. j \<noteq> i \<longrightarrow> f j = g j \<Longrightarrow>
     map f (filter (\<lambda>j. f j \<in> R) [Suc i..<n]) = map g (filter (\<lambda>j. g j \<in> R) [Suc i..<n])"
  by (auto intro!: map_cong filter_cong)

lemma processMonitorData_from_reads:
  "processMonitorData_from i n readSet rd s = Inr s' \<Longrightarrow>
     \<exists>evs. trace s' = trace s @ evs \<and>
       reads_of evs =
         map (\<lambda>j. clientFds s ! j) (filter (\<lambda>j. clientFds s ! j \<in> readSet) [i..<n])"
proof (induction i n readSet rd s rule: processMonitorData_from.induct)
  case (1 i n readSet rd s)
  note step = processMonitorData_from.simps [of i n readSet rd s]
  show ?case
  proof (cases "i < n")
    case False
    with "1.prems" step show ?thesis by simp
  next
    case True
    note lt = True
    from "1.prems" lt step have inb: "i < length (clientFds s)"
      by (auto simp: undefined_behaviour_def split: if_splits)
    from "1.prems" lt inb step have rng: "fd_in_range (clientFds s ! i)"
      by (auto simp: undefined_behaviour_def Let_def split: if_splits)
    have upt: "[i..<n] = i # [Suc i..<n]" using lt by (simp add: upt_conv_Cons)
    show ?thesis
    proof (cases "clientFds s ! i \<in> readSet")
      case False
      with "1.prems" lt inb rng step
      have "processMonitorData_from (Suc i) n readSet rd s = Inr s'" by (simp add: Let_def)
      from "1.IH"(2) [OF lt _ refl _ False this] inb rng
      show ?thesis using False upt by simp
    next
      case True
      with "1.prems" lt inb rng step obtain s1 where
        sv: "serviceSlot i (clientFds s ! i) (rd (clientFds s ! i)) s = Inr s1" and
        rest: "processMonitorData_from (Suc i) n readSet rd s1 = Inr s'"
        by (auto simp: Let_def split: sum.splits)
      from serviceSlot_reads [OF sv] obtain e1 where
        agree: "\<forall>j. j \<noteq> i \<longrightarrow> clientFds s1 ! j = clientFds s ! j" and
        t1: "trace s1 = trace s @ e1" and r1: "reads_of e1 = [clientFds s ! i]"
        by blast
      from "1.IH"(1) [OF lt _ refl _ True sv rest] inb rng obtain e2 where
        t2: "trace s' = trace s1 @ e2" and
        r2: "reads_of e2 = map (\<lambda>j. clientFds s1 ! j)
               (filter (\<lambda>j. clientFds s1 ! j \<in> readSet) [Suc i..<n])"
        by auto
      have "trace s' = trace s @ (e1 @ e2)" using t1 t2 by simp
      moreover have "reads_of (e1 @ e2) =
          map (\<lambda>j. clientFds s ! j) (filter (\<lambda>j. clientFds s ! j \<in> readSet) [i..<n])"
        using r1 r2 slots_agree [OF agree, of readSet n] True upt
        by (simp add: reads_of_append)
      ultimately show ?thesis by blast
    qed
  qed
qed


lemma signals_keep_connections:
  "\<exists>evs. trace (foldl (\<lambda>st sig. handleSignal sig st) s sigs) = trace s @ evs \<and>
     reads_of evs = [] \<and>
     clientFds (foldl (\<lambda>st sig. handleSignal sig st) s sigs) = clientFds s \<and>
     activeClients (foldl (\<lambda>st sig. handleSignal sig st) s sigs) = activeClients s \<and>
     masterSet (foldl (\<lambda>st sig. handleSignal sig st) s sigs) = masterSet s \<and>
     maxFd (foldl (\<lambda>st sig. handleSignal sig st) s sigs) = maxFd s"
proof (induction sigs arbitrary: s)
  case Nil
  show ?case by simp
next
  case (Cons sig sigs)
  from Cons.IH [of "handleSignal sig s"] show ?case
    by (auto simp: handleSignal_def emit_def)
qed

lemma handleNewConnection_reads:
  "handleNewConnection env serverFd s = Inr s' \<Longrightarrow>
     \<exists>evs. trace s' = trace s @ evs \<and>
       reads_of evs = (if accept_ret env < 0 then [] else [accept_ret env])"
  by (auto simp: handleNewConnection_def emit_def undefined_behaviour_def Let_def
        split: if_splits read_result.splits write_result.splits)

lemma continue_result:
  "map_sum id (Pair c) r = Inr (ctl, s') \<Longrightarrow> r = Inr s'"
  by (cases r) auto

lemma two_workers_reached:
  "main_loop 3 [connection_ready (worker_connects 4), connection_ready (worker_connects 5)]
     (initial_state 3 [0, 0]) = Inr (False, two_workers)"
  by (simp add: run_defs insert_commute)

lemma one_child_reached:
  "startMonitoring [(''eth0'', \<lparr>fork_ret = 100, execlp_fails = False\<rparr>)] (initial_state 3 [0, 0]) =
     Inr ((initial_state 3 [0, 0])\<lparr>g_childProcesses := [100]\<rparr>) \<and>
   main_loop 3 [sigint_arrives] ((initial_state 3 [0, 0])\<lparr>g_childProcesses := [100]\<rparr>) =
     Inr (True, one_child)"
  by (simp add: run_defs spawnInterfaceMonitor_def sigint_arrives_def one_child_def
        handleSignal_def)

text \<open>
  \<open>processMonitorData\<close> is given neither \<open>masterSet\<close> nor \<open>maxFd\<close>, and its copy of
  \<open>activeClients\<close> is passed by value: none of them changes, and the array keeps its
  size.
\<close>

lemma serviceSlot_keeps_registry:
  "serviceSlot i fd r s = Inr s' \<Longrightarrow>
     masterSet s' = masterSet s \<and> activeClients s' = activeClients s \<and> maxFd s' = maxFd s \<and>
     length (clientFds s') = length (clientFds s)"
  by (auto simp: serviceSlot_def emit_def undefined_behaviour_def Let_def
        split: if_splits read_result.splits)

lemma processMonitorData_from_keeps_registry:
  "processMonitorData_from i n readSet rd s = Inr s' \<Longrightarrow>
     masterSet s' = masterSet s \<and> activeClients s' = activeClients s \<and> maxFd s' = maxFd s \<and>
     length (clientFds s') = length (clientFds s)"
proof (induction i n readSet rd s rule: processMonitorData_from.induct)
  case (1 i n readSet rd s)
  note step = processMonitorData_from.simps [of i n readSet rd s]
  show ?case
  proof (cases "i < n")
    case False
    with "1.prems" step show ?thesis by simp
  next
    case True
    note lt = True
    from "1.prems" lt step have inb: "i < length (clientFds s)"
      by (auto simp: undefined_behaviour_def split: if_splits)
    from "1.prems" lt inb step have rng: "fd_in_range (clientFds s ! i)"
      by (auto simp: undefined_behaviour_def Let_def split: if_splits)
    show ?thesis
    proof (cases "clientFds s ! i \<in> readSet")
      case False
      with "1.prems" lt inb rng step
      have "processMonitorData_from (Suc i) n readSet rd s = Inr s'" by (simp add: Let_def)
      from "1.IH"(2) [OF lt _ refl _ False this] inb rng show ?thesis by simp
    next
      case True
      with "1.prems" lt inb rng step obtain s1 where
        sv: "serviceSlot i (clientFds s ! i) (rd (clientFds s ! i)) s = Inr s1" and
        rest: "processMonitorData_from (Suc i) n readSet rd s1 = Inr s'"
        by (auto simp: Let_def split: sum.splits)
      from "1.IH"(1) [OF lt _ refl _ True sv rest] inb rng serviceSlot_keeps_registry [OF sv]
      show ?thesis by simp
    qed
  qed
qed

text \<open>
  A full read with no NUL is the one case in which the buffer handed to the display
  has no terminator.
\<close>

lemma serviceSlot_overread_iff:
  "(\<exists>t. serviceSlot i fd (ReadData bs) s = Inl (BufferOverread, t)) \<longleftrightarrow>
     BUFFER_SIZE \<le> length bs \<and> NUL \<notin> set (take BUFFER_SIZE bs)"
  by (auto simp: serviceSlot_def emit_def undefined_behaviour_def Let_def terminated_def
        BUFFER_SIZE_def min_def)

text \<open>
  \<open>FD_SET\<close> precedes the handshake: whenever \<open>accept\<close> gives a descriptor and
  \<open>handleNewConnection\<close> returns, admitted or rejected, the descriptor is in
  \<open>masterSet\<close>.
\<close>

lemma accepted_descriptor_enters_masterSet:
  "handleNewConnection env serverFd s = Inr s' \<Longrightarrow>
     masterSet s' = (if accept_ret env < 0 then masterSet s else insert (accept_ret env) (masterSet s))"
  by (auto simp: handleNewConnection_def emit_def undefined_behaviour_def Let_def
        split: if_splits read_result.splits write_result.splits)

text \<open>
  The answer of the handshake is sent with a plain \<open>write\<close>. When the peer has sent the
  token and closed, the supervisor is killed by \<open>SIGPIPE\<close> inside that \<open>write\<close>: the test
  for -1 that follows is never reached, nothing is logged and nothing is closed.
\<close>

lemma handshake_write_sigpipe:
  "handleNewConnection
     \<lparr>accept_ret = 5, read_ret = ReadData ''ready_to_monitor'', write_ret = WriteSigpipe\<rparr>
     3 one_worker =
   Inl (KilledBySigpipe,
     trace one_worker @
       [SysAccept 3, SysRead 5 255, SysWrite 5 (''start_monitoring'' @ [NUL])])"
  by (simp add: run_defs insert_commute)

text \<open>
  With the registry full, \<open>handleNewConnection\<close> stores past the end of the array, and
  the loop calls it whenever the listening descriptor is ready. While the behaviour is
  defined, the slots in use fit in the array.
\<close>

lemma accept_at_capacity:
  "length (clientFds s) \<le> activeClients s \<Longrightarrow>
     handleNewConnection env serverFd s =
       Inl (ArrayOutOfBounds (activeClients s), trace s @ [SysAccept serverFd])"
  by (simp add: handleNewConnection_def emit_def undefined_behaviour_def Let_def)

lemma listening_ready_always_accepts:
  "signals env = [] \<Longrightarrow> select_ret env = SelectReady ready \<Longrightarrow> fd_in_range serverFd \<Longrightarrow>
   serverFd \<in> selectReadSet ready s \<Longrightarrow>
     main_iteration serverFd env s =
       map_sum id (Pair Continue) (handleNewConnection (conn env) serverFd s)"
  by (simp add: main_iteration_def)

lemma handleSignal_within_capacity: "within_capacity (handleSignal sig s) = within_capacity s"
  by (simp add: handleSignal_def emit_def within_capacity_def)

lemma signals_within_capacity:
  "within_capacity (foldl (\<lambda>st sig. handleSignal sig st) s sigs) = within_capacity s"
  by (induction sigs arbitrary: s) (simp_all add: handleSignal_within_capacity)

lemma handleNewConnection_within_capacity:
  "handleNewConnection env serverFd s = Inr s' \<Longrightarrow> within_capacity s'"
  by (auto simp: handleNewConnection_def emit_def undefined_behaviour_def Let_def
        within_capacity_def split: if_splits read_result.splits write_result.splits)

lemma main_iteration_within_capacity:
  assumes "main_iteration serverFd env s = Inr (ctl, s')" and "within_capacity s"
  shows "within_capacity s'"
proof (cases "select_ret env")
  case SelectEINTR
  with assms show ?thesis by (auto simp: main_iteration_def signals_within_capacity Let_def)
next
  case SelectError
  with assms signals_within_capacity [of s "signals env"] show ?thesis
    by (auto simp: main_iteration_def emit_def within_capacity_def Let_def)
next
  case (SelectReady ready)
  define s0 where "s0 = foldl (\<lambda>st sig. handleSignal sig st) s (signals env)"
  have cap0: "within_capacity s0" using assms(2) by (simp add: s0_def signals_within_capacity)
  show ?thesis
  proof (cases "serverFd \<in> selectReadSet ready s0")
    case True
    with assms SelectReady have "handleNewConnection (conn env) serverFd s0 = Inr s'"
      by (auto simp: main_iteration_def s0_def [symmetric] undefined_behaviour_def Let_def
            split: if_splits dest: continue_result)
    then show ?thesis by (rule handleNewConnection_within_capacity)
  next
    case False
    with assms SelectReady
    have "processMonitorData (selectReadSet ready s0) (reads env) s0 = Inr s'"
      by (auto simp: main_iteration_def s0_def [symmetric] undefined_behaviour_def Let_def
            split: if_splits dest: continue_result)
    then have r: "processMonitorData_from 0 (activeClients s0) (selectReadSet ready s0) (reads env) s0
        = Inr s'"
      by (simp add: processMonitorData_def)
    from processMonitorData_from_keeps_registry [OF r] cap0
    show ?thesis by (simp add: within_capacity_def)
  qed
qed

lemma main_loop_within_capacity:
  "main_loop serverFd envs s = Inr (left, s') \<Longrightarrow> within_capacity s \<Longrightarrow> within_capacity s'"
proof (induction envs arbitrary: s)
  case Nil
  then show ?case by simp
next
  case (Cons env envs)
  show ?case
  proof (cases "g_isRunning s")
    case False
    with Cons.prems show ?thesis by simp
  next
    case True
    with Cons.prems obtain ctl s1 where
      it: "main_iteration serverFd env s = Inr (ctl, s1)"
      by (auto split: sum.splits)
    from main_iteration_within_capacity [OF it Cons.prems(2)] have cap1: "within_capacity s1" .
    show ?thesis
    proof (cases ctl)
      case Continue
      with Cons.prems True it have "main_loop serverFd envs s1 = Inr (left, s')" by simp
      from Cons.IH [OF this cap1] show ?thesis .
    next
      case Break
      with Cons.prems True it cap1 show ?thesis by simp
    qed
  qed
qed

text \<open>
  \<open>cleanup\<close>: when every \<open>wait\<close> before the first failing one returns a pid, each of
  them is logged as reaped; and whatever \<open>wait\<close> returned, the slots below
  \<open>activeClients\<close> are cleared from \<open>masterSet\<close> and closed in order, then the
  listening descriptor is closed and the path unlinked, with one log line for the
  result of \<open>unlink\<close>.
\<close>

lemma waitChildren_reaps:
  "\<forall>p \<in> set ps. 0 < p \<Longrightarrow> r \<le> 0 \<Longrightarrow>
     waitChildren (ps @ r # rest) s =
       Some (s\<lparr>trace := trace s @ concat (map (\<lambda>p. [SysWait, Log (ChildExited p)]) ps) @ [SysWait]\<rparr>)"
proof (induction ps arbitrary: s)
  case Nil
  then show ?case by (simp add: emit_def)
next
  case (Cons p ps)
  from Cons.prems have "0 < p" "\<forall>p \<in> set ps. 0 < p" by auto
  with Cons.IH [of "emit (Log (ChildExited p)) (emit SysWait s)"] Cons.prems(2)
  show ?case by (simp add: emit_def)
qed

lemma signalChildren_only_trace:
  "\<exists>evs. signalChildren k pids s = s\<lparr>trace := trace s @ evs\<rparr>"
proof (induction pids arbitrary: s)
  case Nil
  show ?case by (rule exI [of _ "[]"]) simp
next
  case (Cons p pids)
  show ?case
  proof (cases "k p = - 1")
    case True
    with Cons.IH [of "emit (Log (KillFailed p)) (emit (SysKill p SIGUSR1) s)"]
    show ?thesis by (auto simp: emit_def)
  next
    case False
    with Cons.IH [of "emit (SysKill p SIGUSR1) s"]
    show ?thesis by (auto simp: emit_def)
  qed
qed

lemma waitChildren_only_trace:
  "waitChildren ws s = Some s' \<Longrightarrow> \<exists>evs. s' = s\<lparr>trace := trace s @ evs\<rparr>"
proof (induction ws arbitrary: s)
  case Nil
  then show ?case by simp
next
  case (Cons w ws)
  show ?case
  proof (cases "0 < w")
    case True
    with Cons.prems have "waitChildren ws (emit (Log (ChildExited w)) (emit SysWait s)) = Some s'"
      by simp
    from Cons.IH [OF this] show ?thesis by (auto simp: emit_def)
  next
    case False
    with Cons.prems show ?thesis by (auto simp: emit_def)
  qed
qed

lemma closeClients_from_closes:
  "closeClients_from i n s = Inr s' \<Longrightarrow>
     s' = s\<lparr>masterSet := masterSet s - (\<lambda>j. clientFds s ! j) ` {i..<n},
            trace := trace s @ map (\<lambda>j. SysClose (clientFds s ! j)) [i..<n]\<rparr>"
proof (induction i n s rule: closeClients_from.induct)
  case (1 i n s)
  note step = closeClients_from.simps [of i n s]
  show ?case
  proof (cases "i < n")
    case False
    with "1.prems" step show ?thesis by simp
  next
    case True
    from "1.prems" True step have inb: "i < length (clientFds s)"
      by (auto simp: undefined_behaviour_def split: if_splits)
    from "1.prems" True inb step have rng: "fd_in_range (clientFds s ! i)"
      by (auto simp: undefined_behaviour_def Let_def split: if_splits)
    from "1.prems" True inb rng step
    have rest: "closeClients_from (Suc i) n
        (emit (SysClose (clientFds s ! i)) (s\<lparr>masterSet := masterSet s - {clientFds s ! i}\<rparr>)) = Inr s'"
      by (simp add: Let_def)
    have img: "masterSet s - {clientFds s ! i} - (\<lambda>j. clientFds s ! j) ` {Suc i..<n} =
        masterSet s - (\<lambda>j. clientFds s ! j) ` {i..<n}"
    proof -
      have "{i..<n} = insert i {Suc i..<n}" using True by auto
      then show ?thesis by auto
    qed
    from "1.IH" [OF True _ refl _ rest] inb rng True
    show ?thesis
      by (simp add: emit_def upt_conv_Cons img)
  qed
qed

lemma cleanup_closes_connections:
  assumes "cleanup env serverFd s = Some (Inr s')"
  shows "\<exists>evs. trace s' =
       trace s @ evs @ map (\<lambda>j. SysClose (clientFds s ! j)) [0..<activeClients s] @
         [SysClose serverFd, SysUnlink,
          Log (if unlink_ret env = - 1 then UnlinkFailed else UnlinkOk)] \<and>
     masterSet s' = masterSet s - (\<lambda>j. clientFds s ! j) ` {0..<activeClients s}"
proof -
  obtain e0 where k: "signalChildren (kills env) (g_childProcesses s) s = s\<lparr>trace := trace s @ e0\<rparr>"
    using signalChildren_only_trace by blast
  from assms obtain s1 where
    w: "waitChildren (waits env) (signalChildren (kills env) (g_childProcesses s) s) = Some s1"
    by (auto simp: cleanup_def split: option.splits)
  from waitChildren_only_trace [OF w] k obtain e1 where
    s1: "s1 = s\<lparr>trace := trace s @ e0 @ e1\<rparr>"
    by auto
  from assms w obtain s2 where
    c: "closeClients_from 0 (activeClients s1) s1 = Inr s2" and
    fin: "s' = emit (Log (if unlink_ret env = - 1 then UnlinkFailed else UnlinkOk))
            (emit SysUnlink (emit (SysClose serverFd) s2))"
    by (auto simp: cleanup_def Let_def split: sum.splits)
  from closeClients_from_closes [OF c] s1 fin show ?thesis
    by (intro exI [of _ "e0 @ e1"]) (simp add: emit_def)
qed

subsection \<open>Capacity\<close>

text \<open>
  Claim C1: the number of active slots never exceeds \<open>MAX_CONNECTIONS\<close>, and the accept
  path is never entered when the registry is full.

  The loop of \<open>main\<close> calls \<open>handleNewConnection\<close> whenever the listening descriptor is
  ready, whatever \<open>activeClients\<close> is. After two workers have been admitted
  (\<open>activeClients = 2 = MAX_CONNECTIONS\<close>) a third connection is accepted all the same,
  and its descriptor is stored in \<open>clientFds[2]\<close>, past the end of the array.
\<close>

theorem third_connection_overflows_clientFds:
  "main_loop 3 [connection_ready (worker_connects 4), connection_ready (worker_connects 5)]
      (initial_state 3 [0, 0]) = Inr (False, two_workers) \<and>
   activeClients two_workers = MAX_CONNECTIONS \<and>
   length (clientFds two_workers) = MAX_CONNECTIONS \<and>
   main_loop 3 [connection_ready (worker_connects 4), connection_ready (worker_connects 5),
                connection_ready (worker_connects 6)] (initial_state 3 [0, 0]) =
     Inl (ArrayOutOfBounds MAX_CONNECTIONS, trace two_workers @ [SysAccept 3])"
  by (simp add: run_defs insert_commute)

subsection \<open>Handshake\<close>

text \<open>
  Claim C2, as amended: for a connection accepted while a slot is free, on a descriptor
  an \<open>fd_set\<close> can hold: if the first message read, taken as a C string (the bytes read,
  at most 255, up to the first NUL), is \<open>ready_to_monitor\<close>, the supervisor writes
  \<open>start_monitoring\<close> with its terminating NUL and nothing else; when that write returns
  a value other than -1 the slot becomes active (\<open>activeClients\<close> is incremented, the
  descriptor is in the slot, nothing is closed), and when it returns -1 the connection
  is closed and \<open>activeClients\<close> is unchanged. If the read fails or the message is
  anything else, the connection is closed, nothing is written and \<open>activeClients\<close> is
  unchanged. Nothing is said of a write that does not return (the peer has closed and
  \<open>SIGPIPE\<close> is raised).
\<close>

theorem handshake_outcome:
  assumes "activeClients s < length (clientFds s)" and "fd_in_range (accept_ret env)"
  shows "if first_message env = Some ''ready_to_monitor'' then
       (case write_ret env of
          WriteSigpipe \<Rightarrow> True
        | WriteReturns r \<Rightarrow>
            \<exists>s'. handleNewConnection env serverFd s = Inr s' \<and>
              writes_of (new_events s s') = [(accept_ret env, ''start_monitoring'' @ [NUL])] \<and>
              (if r = - 1 then
                 activeClients s' = activeClients s \<and>
                 closes_of (new_events s s') = [accept_ret env]
               else
                 activeClients s' = Suc (activeClients s) \<and>
                 clientFds s' ! activeClients s = accept_ret env \<and>
                 closes_of (new_events s s') = []))
     else
       (\<exists>s'. handleNewConnection env serverFd s = Inr s' \<and>
          writes_of (new_events s s') = [] \<and>
          activeClients s' = activeClients s \<and>
          closes_of (new_events s s') = [accept_ret env])"
proof (cases "read_ret env")
  case ReadError
  with assms show ?thesis
    by (simp add: handleNewConnection_def first_message_def emit_def new_events_def
          fd_in_range_def Let_def)
next
  case (ReadData bs)
  show ?thesis
  proof (cases "write_ret env")
    case WriteSigpipe
    with assms ReadData show ?thesis
      by (simp add: handleNewConnection_def first_message_def c_string_snoc_NUL
            emit_def new_events_def fd_in_range_def Let_def)
  next
    case (WriteReturns r)
    with assms ReadData show ?thesis
      by (simp add: handleNewConnection_def first_message_def c_string_snoc_NUL
            emit_def new_events_def fd_in_range_def Let_def)
  qed
qed

theorem handshake_outcome_witness:
  "\<exists>s'. handleNewConnection (worker_connects 5) 3 one_worker = Inr s' \<and>
     writes_of (new_events one_worker s') = [(5, ''start_monitoring'' @ [NUL])] \<and>
     activeClients s' = 2 \<and> clientFds s' ! 1 = 5 \<and> closes_of (new_events one_worker s') = []"
  using handshake_outcome [of one_worker "worker_connects 5" 3]
  by (simp add: first_message_def worker_connects_def one_worker_def fd_in_range_def
        FD_SETSIZE_def BUFFER_SIZE_def c_string_def NUL_def numeral_2_eq_2)

text \<open>
  Claim C2 as stated fails twice. The worker on descriptor 5 sends exactly the token and
  the write of the answer returns -1: the connection is closed and \<open>activeClients\<close> stays
  at 1. And a message that is not the token, the token followed by a NUL and \<open>junk\<close>,
  is admitted, because \<open>strcmp\<close> stops at the NUL.
\<close>

theorem handshake_counterexample:
  "first_message
     \<lparr>accept_ret = 5, read_ret = ReadData ''ready_to_monitor'',
      write_ret = WriteReturns (- 1)\<rparr> = Some ''ready_to_monitor'' \<and>
   handleNewConnection
     \<lparr>accept_ret = 5, read_ret = ReadData ''ready_to_monitor'',
      write_ret = WriteReturns (- 1)\<rparr> 3 one_worker =
     Inr (one_worker\<lparr>masterSet := {3, 4, 5}, clientFds := [4, 5],
       trace := trace one_worker @
         [SysAccept 3, SysRead 5 255, SysWrite 5 (''start_monitoring'' @ [NUL]),
          Log HandshakeWriteFailed, SysClose 5]\<rparr>) \<and>
   first_message
     \<lparr>accept_ret = 5, read_ret = ReadData (''ready_to_monitor'' @ [NUL] @ ''junk''),
      write_ret = WriteReturns 17\<rparr> = Some ''ready_to_monitor'' \<and>
   handleNewConnection
     \<lparr>accept_ret = 5, read_ret = ReadData (''ready_to_monitor'' @ [NUL] @ ''junk''),
      write_ret = WriteReturns 17\<rparr> 3 one_worker =
     Inr (one_worker\<lparr>masterSet := {3, 4, 5}, maxFd := 5, clientFds := [4, 5],
       activeClients := 2,
       trace := trace one_worker @
         [SysAccept 3, SysRead 5 255, SysWrite 5 (''start_monitoring'' @ [NUL])]\<rparr>)"
  by (simp add: run_defs insert_commute)

text \<open>
  Claim C3: the accepted descriptor enters \<open>masterSet\<close> only after the handshake has
  succeeded, and a rejected connection leaves \<open>masterSet\<close> unchanged.

  \<open>FD_SET\<close> is called right after \<open>accept\<close>, before the first \<open>read\<close>, and no path of
  rejection calls \<open>FD_CLR\<close>. A peer that sends \<open>hello\<close> is closed, and its descriptor 5
  stays in \<open>masterSet\<close>.
\<close>

theorem rejected_descriptor_stays_in_masterSet:
  "main_iteration 3
     (connection_ready \<lparr>accept_ret = 5, read_ret = ReadData ''hello'',
        write_ret = WriteReturns 17\<rparr>)
     one_worker =
   Inr (Continue, one_worker\<lparr>masterSet := {3, 4, 5}, clientFds := [4, 5],
     trace := trace one_worker @
       [SysAccept 3, SysRead 5 255, Log (UnexpectedMessage ''hello''), SysClose 5]\<rparr>)"
  by (simp add: run_defs insert_commute)

subsection \<open>Reports\<close>

text \<open>
  Claim C4: when a read on an active connection returns zero bytes, the supervisor
  closes the descriptor, removes it from \<open>masterSet\<close> and marks the slot closed.

  \<open>processMonitorData\<close> closes descriptor 4 and stores -1 in the slot, but \<open>masterSet\<close>
  (which it is not even given) still holds 4, and \<open>activeClients\<close> is still 1.
\<close>

theorem peer_close_leaves_masterSet:
  "main_iteration 3 (data_ready {4} (\<lambda>fd. ReadData [])) one_worker =
   Inr (Continue, one_worker\<lparr>clientFds := [- 1, 0],
     trace := trace one_worker @ [SysRead 4 256, Log (ConnectionClosed 0), SysClose 4]\<rparr>) \<and>
   4 \<in> masterSet one_worker"
  by (simp add: run_defs insert_commute)

text \<open>
  Claim C5: a read that fails on an active connection is handled as a peer close, and
  the error is logged.

  \<open>processMonitorData\<close> tests \<open>bytesRead > 0\<close> and \<open>bytesRead == 0\<close> only. After a
  read that returns -1 nothing is closed, nothing is logged, the slot keeps its
  descriptor.
\<close>

theorem read_error_is_ignored:
  "main_iteration 3 (data_ready {4} (\<lambda>fd. ReadError)) one_worker =
   Inr (Continue, one_worker\<lparr>trace := trace one_worker @ [SysRead 4 256]\<rparr>)"
  by (simp add: run_defs insert_commute)

text \<open>
  Claim C10: what is forwarded to the display after a read of positive length is a
  NUL-terminated string inside the buffer, whatever length the read returns.

  The read asks for \<open>BUFFER_SIZE\<close> bytes, not \<open>BUFFER_SIZE - 1\<close>. When it returns 256
  bytes with no NUL among them, the zeroed buffer is filled to its last byte and
  \<open>operator<<\<close> runs past its end.
\<close>

theorem full_read_is_not_terminated:
  "main_iteration 3 (data_ready {4} (\<lambda>fd. ReadData (replicate 256 CHR ''A''))) one_worker =
   Inl (BufferOverread, trace one_worker @ [SysRead 4 256])"
  by (simp add: run_defs insert_commute)

subsection \<open>One iteration of the multiplexer\<close>

text \<open>
  Claim C7, as amended: in an iteration in which \<open>select\<close> succeeds and the listening
  descriptor is not ready, the connections read are exactly the slots below
  \<open>activeClients\<close> whose descriptor \<open>select\<close> left in \<open>readSet\<close> (in the watch set, not
  above \<open>maxFd\<close>, with data pending), each once, in ascending slot order: such a
  connection is serviced in that very iteration. In an iteration in which the listening
  descriptor is ready, only the accept path runs: the one descriptor read is the newly
  accepted one, and no registered connection is serviced.
\<close>

theorem iteration_service_order:
  assumes "main_iteration serverFd env s = Inr (ctl, s')"
      and "select_ret env = SelectReady ready"
  shows "reads_of (new_events s s') =
     (if serverFd \<in> selectReadSet ready s then
        (if accept_ret (conn env) < 0 then [] else [accept_ret (conn env)])
      else
        map (\<lambda>i. clientFds s ! i)
          (filter (\<lambda>i. clientFds s ! i \<in> selectReadSet ready s) [0..<activeClients s]))"
proof -
  define s0 where "s0 = foldl (\<lambda>st sig. handleSignal sig st) s (signals env)"
  from signals_keep_connections [of s "signals env"] obtain e0 where
    t0: "trace s0 = trace s @ e0" and r0: "reads_of e0 = []" and
    same: "clientFds s0 = clientFds s" "activeClients s0 = activeClients s"
          "masterSet s0 = masterSet s" "maxFd s0 = maxFd s"
    unfolding s0_def by blast
  have rs: "selectReadSet ready s0 = selectReadSet ready s"
    by (simp add: selectReadSet_def same)
  show ?thesis
  proof (cases "serverFd \<in> selectReadSet ready s")
    case True
    with assms rs have "handleNewConnection (conn env) serverFd s0 = Inr s'"
      by (auto simp: main_iteration_def s0_def [symmetric] undefined_behaviour_def Let_def
            split: if_splits dest: continue_result)
    from handleNewConnection_reads [OF this] obtain e1 where
      "trace s' = trace s0 @ e1"
      "reads_of e1 = (if accept_ret (conn env) < 0 then [] else [accept_ret (conn env)])"
      by blast
    with t0 r0 True show ?thesis
      by (simp add: new_events_def reads_of_append)
  next
    case False
    with assms rs have "processMonitorData (selectReadSet ready s) (reads env) s0 = Inr s'"
      by (auto simp: main_iteration_def s0_def [symmetric] undefined_behaviour_def Let_def
            split: if_splits dest: continue_result)
    then have "processMonitorData_from 0 (activeClients s) (selectReadSet ready s) (reads env) s0
        = Inr s'"
      by (simp add: processMonitorData_def same)
    from processMonitorData_from_reads [OF this] obtain e1 where
      "trace s' = trace s0 @ e1"
      "reads_of e1 = map (\<lambda>j. clientFds s0 ! j)
         (filter (\<lambda>j. clientFds s0 ! j \<in> selectReadSet ready s) [0..<activeClients s])"
      by blast
    with t0 r0 False same show ?thesis
      by (simp add: new_events_def reads_of_append)
  qed
qed

theorem iteration_service_order_witness:
  "reads_of (new_events two_workers
      (two_workers\<lparr>trace := trace two_workers @
         [SysRead 4 256, Log (DataReceived 0 ''eth0 up''),
          SysRead 5 256, Log (DataReceived 1 ''eth1 up'')]\<rparr>)) = [4, 5]"
proof -
  have run: "main_iteration 3
      (data_ready {5, 4} (\<lambda>fd. ReadData (if fd = 4 then ''eth0 up'' else ''eth1 up''))) two_workers =
    Inr (Continue, two_workers\<lparr>trace := trace two_workers @
         [SysRead 4 256, Log (DataReceived 0 ''eth0 up''),
          SysRead 5 256, Log (DataReceived 1 ''eth1 up'')]\<rparr>)"
    by (simp add: run_defs)
  have sel: "select_ret (data_ready {5, 4} (\<lambda>fd. ReadData (if fd = 4 then ''eth0 up'' else ''eth1 up'')))
     = SelectReady {5, 4}"
    by (simp add: data_ready_def)
  from iteration_service_order [OF run sel] show ?thesis
    by (simp add: selectReadSet_def two_workers_def numeral_2_eq_2)
qed

text \<open>
  Claim C7 as stated fails when the listening descriptor is ready too: the worker in
  slot 0 (descriptor 4) has a report pending and is in \<open>readSet\<close>, but the iteration
  only admits the new peer on descriptor 5 and never reads descriptor 4.
\<close>

theorem listening_ready_counterexample:
  "clientFds one_worker ! 0 = 4 \<and> 0 < activeClients one_worker \<and>
   4 \<in> selectReadSet {3, 4} one_worker \<and>
   reads both_ready 4 = ReadData ''report'' \<and>
   main_iteration 3 both_ready one_worker =
     Inr (Continue, one_worker\<lparr>masterSet := {3, 4, 5}, maxFd := 5, clientFds := [4, 5],
       activeClients := 2,
       trace := trace one_worker @
         [SysAccept 3, SysRead 5 255, SysWrite 5 (''start_monitoring'' @ [NUL])]\<rparr>)"
  by (simp add: run_defs insert_commute)

subsection \<open>Spawning\<close>

text \<open>
  Claim C6, as amended: in the supervisor (the parent of every \<open>fork\<close>),
  \<open>spawnInterfaceMonitor\<close> returns the error value, logs it, and the handle is left out
  of the handle set exactly when \<open>fork\<close> fails; the handle set grows by the pids of all
  the children \<open>fork\<close> created, in order, whether or not the child could execute the
  worker image.
\<close>

theorem startMonitoring_records_every_forked_child:
  assumes "\<forall>e \<in> set es. fork_ret (snd e) \<noteq> 0"
  shows "\<exists>s'. startMonitoring es s = Inr s' \<and>
     g_childProcesses s' =
       g_childProcesses s @ filter (\<lambda>pid. 0 < pid) (map (\<lambda>e. fork_ret (snd e)) es) \<and>
     trace s' =
       trace s @ map (\<lambda>e. Log (ForkFailed (fst e))) (filter (\<lambda>e. fork_ret (snd e) < 0) es)"
  using assms
proof (induction es arbitrary: s)
  case Nil
  then show ?case by simp
next
  case (Cons a es)
  obtain i e where a: "a = (i, e)" by (cases a)
  from Cons.prems a have ne: "fork_ret e \<noteq> 0" and rest: "\<forall>e \<in> set es. fork_ret (snd e) \<noteq> 0"
    by auto
  show ?case
  proof (cases "fork_ret e < 0")
    case True
    with Cons.IH [OF rest, of "s\<lparr>trace := trace s @ [Log (ForkFailed i)]\<rparr>"] a ne
    show ?thesis by (simp add: spawn_in_parent)
  next
    case False
    with Cons.IH [OF rest, of "s\<lparr>g_childProcesses := g_childProcesses s @ [fork_ret e]\<rparr>"] a ne
    show ?thesis by (simp add: spawn_in_parent)
  qed
qed

theorem startMonitoring_records_every_forked_child_witness:
  "\<exists>s'. startMonitoring
           [(''eth0'', \<lparr>fork_ret = 100, execlp_fails = True\<rparr>),
            (''eth1'', \<lparr>fork_ret = - 1, execlp_fails = False\<rparr>)] (initial_state 3 [0, 0]) = Inr s' \<and>
     g_childProcesses s' = [100] \<and> trace s' = [Log (ForkFailed ''eth1'')]"
  using startMonitoring_records_every_forked_child
    [of "[(''eth0'', \<lparr>fork_ret = 100, execlp_fails = True\<rparr>),
          (''eth1'', \<lparr>fork_ret = - 1, execlp_fails = False\<rparr>)]" "initial_state 3 [0, 0]"]
  by (simp add: initial_state_def)

text \<open>
  Claim C6 as stated fails when the worker image cannot be executed: \<open>fork\<close> gives the
  parent the pid 100, which enters the handle set, while the child, where \<open>fork\<close>
  returned 0, logs that \<open>execlp\<close> failed and exits.
\<close>

theorem exec_failure_counterexample:
  "startMonitoring [(''eth0'', \<lparr>fork_ret = 100, execlp_fails = True\<rparr>)] (initial_state 3 [0, 0]) =
     Inr ((initial_state 3 [0, 0])\<lparr>g_childProcesses := [100]\<rparr>) \<and>
   spawnInterfaceMonitor ''eth0'' \<lparr>fork_ret = 0, execlp_fails = True\<rparr> =
     ChildExit (- 1) [Log (ExecFailed ''eth0'')]"
  by (simp add: spawnInterfaceMonitor_def initial_state_def)

subsection \<open>The signal handler\<close>

text \<open>
  Claim C9, as amended: the handler writes one message to the standard output
  (the shutdown notice for \<open>SIGINT\<close>, a complaint for any other signal) and, for
  \<open>SIGINT\<close>, sets the running flag to false; the running flag is the only variable of
  the program it changes.
\<close>

theorem handleSignal_effect:
  "handleSignal sig s =
     s\<lparr>g_isRunning := g_isRunning s \<and> sig \<noteq> SIGINT,
       trace := trace s @ [Log (if sig = SIGINT then ShuttingDown else UndefinedSignal)]\<rparr>"
  by (simp add: handleSignal_def emit_def)

text \<open>Claim C9 as stated fails: on \<open>SIGINT\<close> the handler logs before it flips the flag.\<close>

theorem handleSignal_logs_counterexample:
  "logs_of (new_events (initial_state 3 [0, 0]) (handleSignal SIGINT (initial_state 3 [0, 0]))) =
     [ShuttingDown]"
  by (simp add: handleSignal_def emit_def new_events_def initial_state_def)

subsection \<open>Shutdown\<close>

text \<open>
  Claim C8: when \<open>cleanup\<close> has finished, as many workers have been reaped as were
  spawned, every connection is closed, the listening descriptor is closed and the
  socket path is unlinked, a failure of \<open>unlink\<close> being logged only.

  The loop \<open>while ((childPid = wait(&status)) > 0)\<close> stops at the first \<open>wait\<close> that
  does not return a pid, whatever the reason. When a second \<open>SIGINT\<close> interrupts the
  first \<open>wait\<close>, \<open>cleanup\<close> signals the worker 100, reaps nobody, closes the listening
  descriptor, unlinks the path and returns.
\<close>

theorem interrupted_wait_leaves_child:
  "g_childProcesses one_child = [100] \<and>
   cleanup interrupted_wait 3 one_child =
     Some (Inr (one_child\<lparr>trace :=
       [Log ShuttingDown, SysKill 100 SIGUSR1, SysWait, SysClose 3, SysUnlink,
        Log UnlinkOk]\<rparr>))"
  by (simp add: cleanup_def one_child_def interrupted_wait_def run_defs)

end
